theory Spec2Isabelle
  imports Complex_Main
begin

section \<open>The clock: \<^verbatim>\<open>get_current_time\<close>\<close>

text \<open>
  \<^verbatim>\<open>main.c\<close> reads the wall clock with \<^verbatim>\<open>time\<close> and \<^verbatim>\<open>localtime_r\<close> and looks at three
  fields of the resulting \<^verbatim>\<open>struct tm\<close>: \<^verbatim>\<open>tm_year\<close> (years since 1900), \<^verbatim>\<open>tm_hour\<close> and
  \<^verbatim>\<open>tm_min\<close>. The record below is that structure, with \<^verbatim>\<open>tm_yday\<close> kept as well so that
  the calendar day of a reading can be named. The fields are C \<^verbatim>\<open>int\<close>s; the program only
  compares them with constants, so they are modelled as unbounded integers.
\<close>

record tm =
  tm_year :: int
  tm_yday :: int
  tm_hour :: int
  tm_min :: int

text \<open>
  \<^verbatim>\<open>bool get_current_time(int *hour, int *minute)\<close>: returns false, leaving both
  out-parameters untouched, when the year is before 2023; otherwise stores hour and minute
  and returns true. The model takes the broken-down time that \<^verbatim>\<open>localtime_r\<close> produced and
  returns \<open>None\<close> for false, \<open>Some (hour, minute)\<close> for true.
\<close>

definition get_current_time :: "tm \<Rightarrow> (int \<times> int) option" where
  "get_current_time timeinfo =
     (if tm_year timeinfo < 2023 - 1900 then None
      else Some (tm_hour timeinfo, tm_min timeinfo))"

text \<open>
  What the C library promises about the fields \<^verbatim>\<open>localtime_r\<close> fills in: an hour in
  0..23 and a minute in 0..59.
\<close>

definition tm_wf :: "tm \<Rightarrow> bool" where
  "tm_wf timeinfo =
     (0 \<le> tm_hour timeinfo \<and> tm_hour timeinfo \<le> 23 \<and>
      0 \<le> tm_min timeinfo \<and> tm_min timeinfo \<le> 59)"

definition calendar_day :: "tm \<Rightarrow> int \<times> int" where
  "calendar_day timeinfo = (tm_year timeinfo + 1900, tm_yday timeinfo)"

section \<open>The percentage computation\<close>

text \<open>
  Lines 173 to 180 of \<^verbatim>\<open>adc_mqtt_task\<close>:
  \<^verbatim>\<open>
    float percent_value = 100 - ((value - 2300.0) * 100.0 / 1795.0);
    if (percent_value > 100) { percent_value = 100; }
    else if (percent_value < 0) { percent_value = 0; }
  \<close>
  The expression is evaluated in \<^verbatim>\<open>double\<close> and the result converted to \<^verbatim>\<open>float\<close>. The model
  computes in the reals and applies a rounding function after every operation: \<open>rd\<close> for
  the result of a \<^verbatim>\<open>double\<close> operation, \<open>rf\<close> for the conversion to \<^verbatim>\<open>float\<close>. Both are
  parameters, so that what is proved holds for whatever rounding the target performs.
  The integer constants 100 and 0 of the comparisons and assignments are exact in
  \<^verbatim>\<open>float\<close>.
\<close>

record fpu =
  rd :: "real \<Rightarrow> real"
  rf :: "real \<Rightarrow> real"

definition percent_value :: "fpu \<Rightarrow> int \<Rightarrow> real" where
  "percent_value fp v =
     (let p = rf fp (rd fp (100 - rd fp (rd fp (rd fp (of_int v - 2300) * 100) / 1795)))
      in if p > 100 then 100 else if p < 0 then 0 else p)"

text \<open>Arithmetic without rounding error.\<close>

definition ideal_fp :: fpu where
  "ideal_fp = \<lparr>rd = (\<lambda>x. x), rf = (\<lambda>x. x)\<rparr>"


section \<open>The scheduler loop: \<^verbatim>\<open>adc_mqtt_task\<close>\<close>

text \<open>
  The task keeps three local flags, one per daily reading.
\<close>

record flags =
  sent_morning :: bool
  sent_afternoon :: bool
  sent_evening :: bool

text \<open>
  What one pass through the \<^verbatim>\<open>while (1)\<close> body receives from outside: the broken-down
  time read by \<^verbatim>\<open>get_current_time\<close>, the value \<^verbatim>\<open>adc1_get_raw\<close> would return, and the
  value \<^verbatim>\<open>esp_mqtt_client_publish\<close> would return (a message id, negative on failure).
\<close>

record poll =
  clock :: tm
  adc :: int
  pub_result :: int

text \<open>
  What one pass does to the outside, in order: the wait on the event group (the bits
  waited for and the two flags of the call), a call of
  \<^verbatim>\<open>esp_mqtt_client_publish\<close> (topic, the number that \<^verbatim>\<open>snprintf\<close> formats with
  \<^verbatim>\<open>"%.2f%%"\<close> into the payload, and the arguments len, qos and retain), and a
  \<^verbatim>\<open>vTaskDelay\<close> given in milliseconds. Logging is left out.
\<close>

datatype bit = WIFI_CONNECTED_BIT | MQTT_CONNECTED_BIT

datatype event =
    WaitBits "bit list" bool bool
  | Publish string real int int int
  | Delay nat

text \<open>
  Line 149: the wait is for both bits, with \<^verbatim>\<open>xClearOnExit\<close> false and
  \<^verbatim>\<open>xWaitForAllBits\<close> true.
\<close>

abbreviation wait_ready :: event where
  "wait_ready \<equiv> WaitBits [WIFI_CONNECTED_BIT, MQTT_CONNECTED_BIT] False True"

fun is_publish :: "event \<Rightarrow> bool" where
  "is_publish (Publish t p l q r) = True"
| "is_publish _ = False"

definition publishes :: "event list \<Rightarrow> event list" where
  "publishes evs = filter is_publish evs"

fun topic_of :: "event \<Rightarrow> string" where
  "topic_of (Publish t p l q r) = t"
| "topic_of _ = []"

text \<open>Lines 159 to 163: the flags are cleared when the time read is 00:00.\<close>

definition reset_flags :: "int \<Rightarrow> int \<Rightarrow> flags \<Rightarrow> flags" where
  "reset_flags current_hour current_minute st =
     (if current_hour = 0 \<and> current_minute = 0
      then \<lparr>sent_morning = False, sent_afternoon = False, sent_evening = False\<rparr>
      else st)"

text \<open>Lines 166 to 168: the condition under which a reading is taken and published.\<close>

definition time_to_send :: "int \<Rightarrow> int \<Rightarrow> flags \<Rightarrow> bool" where
  "time_to_send current_hour current_minute st =
     ((current_hour = 5 \<and> current_minute = 0 \<and> \<not> sent_morning st) \<or>
      (current_hour = 10 \<and> current_minute = 0 \<and> \<not> sent_afternoon st) \<or>
      (current_hour = 14 \<and> current_minute = 0 \<and> \<not> sent_evening st))"

text \<open>Lines 190 to 196: the flag to set is chosen by the hour alone.\<close>

definition update_flags :: "int \<Rightarrow> flags \<Rightarrow> flags" where
  "update_flags current_hour st =
     (if current_hour = 5 then st\<lparr>sent_morning := True\<rparr>
      else if current_hour = 10 then st\<lparr>sent_afternoon := True\<rparr>
      else if current_hour = 14 then st\<lparr>sent_evening := True\<rparr>
      else st)"

text \<open>
  One pass through the loop body (lines 148 to 200). With an invalid time the pass ends at
  \<^verbatim>\<open>continue\<close> after a delay of 5000 ms; otherwise it ends with the delay of 1000 ms.
  The value returned by \<^verbatim>\<open>esp_mqtt_client_publish\<close> is discarded by the source, so
  \<open>pub_result\<close> is not read.
\<close>

definition iteration :: "fpu \<Rightarrow> poll \<Rightarrow> flags \<Rightarrow> flags \<times> event list" where
  "iteration fp inp st =
     (case get_current_time (clock inp) of
        None \<Rightarrow> (st, [wait_ready, Delay 5000])
      | Some (current_hour, current_minute) \<Rightarrow>
          (let st1 = reset_flags current_hour current_minute st in
           if time_to_send current_hour current_minute st1
           then (update_flags current_hour st1,
                 [wait_ready,
                  Publish ''garden/soil-moisture/s-1'' (percent_value fp (adc inp)) 0 1 0,
                  Delay 1000])
           else (st1, [wait_ready, Delay 1000])))"

text \<open>
  The loop never ends; a run is described by the passes it has made so far, one per
  element of the list of polls. The result is the flags after the last pass and
  everything done to the outside.
\<close>

fun adc_mqtt_task :: "fpu \<Rightarrow> flags \<Rightarrow> poll list \<Rightarrow> flags \<times> event list" where
  "adc_mqtt_task fp st [] = (st, [])"
| "adc_mqtt_task fp st (inp # inps) =
     (let out = iteration fp inp st;
          rest = adc_mqtt_task fp (fst out) inps
      in (fst rest, snd out @ snd rest))"

text \<open>The flags with which the task starts (line 145).\<close>

definition initial_flags :: flags where
  "initial_flags = \<lparr>sent_morning = False, sent_afternoon = False, sent_evening = False\<rparr>"

section \<open>Windows\<close>

text \<open>
  The three daily readings, named after their flags, with the time of day each disjunct
  of the condition tests for and the flag it consults.
\<close>

datatype window = Morning | Afternoon | Evening

fun window_time :: "window \<Rightarrow> int \<times> int" where
  "window_time Morning = (5, 0)"
| "window_time Afternoon = (10, 0)"
| "window_time Evening = (14, 0)"

fun sent :: "window \<Rightarrow> flags \<Rightarrow> bool" where
  "sent Morning st = sent_morning st"
| "sent Afternoon st = sent_afternoon st"
| "sent Evening st = sent_evening st"

text \<open>
  A window fires in a pass when the pass attempts a publish and the window's flag goes
  from clear (armed) to set (fired).
\<close>

definition fired :: "window \<Rightarrow> flags \<Rightarrow> flags \<times> event list \<Rightarrow> bool" where
  "fired w st out = (publishes (snd out) \<noteq> [] \<and> \<not> sent w st \<and> sent w (fst out))"

text \<open>How often a window fires in a run.\<close>

fun fire_count :: "window \<Rightarrow> fpu \<Rightarrow> flags \<Rightarrow> poll list \<Rightarrow> nat" where
  "fire_count w fp st [] = 0"
| "fire_count w fp st (inp # inps) =
     (if fired w st (iteration fp inp st) then 1 else 0)
     + fire_count w fp (fst (iteration fp inp st)) inps"

text \<open>
  The valid time samples of a run, in the order they were read, and the order of times
  within a day.
\<close>

definition samples :: "poll list \<Rightarrow> (int \<times> int) list" where
  "samples inps = List.map_filter (\<lambda>inp. get_current_time (clock inp)) inps"

fun time_le :: "int \<times> int \<Rightarrow> int \<times> int \<Rightarrow> bool" where
  "time_le (h1, m1) (h2, m2) = (h1 < h2 \<or> (h1 = h2 \<and> m1 \<le> m2))"

section \<open>The event group\<close>

text \<open>
  Modelled from the spec: \<^verbatim>\<open>xEventGroupWaitBits\<close> is FreeRTOS code and not part of the
  source; only its call in line 149 is. The spec describes the wait (4.1: the caller is
  suspended until both flags are set and returns at once if they already are) and the
  flags (3: a flag changes only through an explicit set or clear notification). The two
  boolean arguments are given the meaning the FreeRTOS documentation gives them: with
  \<^verbatim>\<open>xWaitForAllBits\<close> the call returns once all of the bits waited for are set, otherwise
  once any of them is; with \<^verbatim>\<open>xClearOnExit\<close> the bits waited for are cleared in the group
  when the call returns because its condition was met. The group is the set of bits that
  are set. The result is the group after the call and the value returned (the group as
  it was when the condition was met); \<open>None\<close> says that the caller stays blocked, which
  with \<^verbatim>\<open>portMAX_DELAY\<close> lasts until another context changes the group. Notifications
  that arrive from other contexts while the task runs are not part of this model.
\<close>

type_synonym event_group = "bit set"

definition xEventGroupWaitBits ::
    "event_group \<Rightarrow> bit set \<Rightarrow> bool \<Rightarrow> bool \<Rightarrow> (event_group \<times> bit set) option" where
  "xEventGroupWaitBits g uxBitsToWaitFor xClearOnExit xWaitForAllBits =
     (if (if xWaitForAllBits then uxBitsToWaitFor \<subseteq> g else uxBitsToWaitFor \<inter> g \<noteq> {})
      then Some (if xClearOnExit then g - uxBitsToWaitFor else g, g)
      else None)"

text \<open>
  What the events of a run do to the event group, one after the other: a wait is the call
  above with the arguments recorded in the event, a publish and a delay leave the group
  alone.
\<close>

fun is_wait :: "event \<Rightarrow> bool" where
  "is_wait (WaitBits bits c a) = True"
| "is_wait _ = False"

fun perform :: "event \<Rightarrow> event_group \<Rightarrow> event_group option" where
  "perform (WaitBits bits c a) g = map_option fst (xEventGroupWaitBits g (set bits) c a)"
| "perform _ g = Some g"

fun perform_all :: "event list \<Rightarrow> event_group \<Rightarrow> event_group option" where
  "perform_all [] g = Some g"
| "perform_all (e # es) g =
     (case perform e g of None \<Rightarrow> None | Some g' \<Rightarrow> perform_all es g')"

section \<open>Sample inputs\<close>

text \<open>
  Polls on day \<open>yday\<close> of 2024 at a given time, with the reading 4095 and a failing
  publish; a poll taken before the clock is synchronised (the year is 1970); and the
  state in which every window has fired.
\<close>

definition poll_at :: "int \<Rightarrow> int \<Rightarrow> int \<Rightarrow> poll" where
  "poll_at yday h m =
     \<lparr>clock = \<lparr>tm_year = 124, tm_yday = yday, tm_hour = h, tm_min = m\<rparr>,
      adc = 4095, pub_result = - 1\<rparr>"

definition unsynced_poll :: "int \<Rightarrow> int \<Rightarrow> poll" where
  "unsynced_poll h m =
     \<lparr>clock = \<lparr>tm_year = 70, tm_yday = 0, tm_hour = h, tm_min = m\<rparr>,
      adc = 4095, pub_result = - 1\<rparr>"

definition all_sent :: flags where
  "all_sent = \<lparr>sent_morning = True, sent_afternoon = True, sent_evening = True\<rparr>"

section \<open>Facts about one pass\<close>

lemma time_to_send_iff:
  "time_to_send h m st \<longleftrightarrow> (\<exists>w. (h, m) = window_time w \<and> \<not> sent w st)"
proof
  assume "time_to_send h m st"
  then consider "h = 5 \<and> m = 0 \<and> \<not> sent Morning st"
    | "h = 10 \<and> m = 0 \<and> \<not> sent Afternoon st"
    | "h = 14 \<and> m = 0 \<and> \<not> sent Evening st"
    by (auto simp: time_to_send_def)
  then show "\<exists>w. (h, m) = window_time w \<and> \<not> sent w st"
  proof cases
    case 1 then show ?thesis by (intro exI [of _ Morning]) simp
  next
    case 2 then show ?thesis by (intro exI [of _ Afternoon]) simp
  next
    case 3 then show ?thesis by (intro exI [of _ Evening]) simp
  qed
next
  assume "\<exists>w. (h, m) = window_time w \<and> \<not> sent w st"
  then obtain w where "(h, m) = window_time w" "\<not> sent w st" by blast
  then show "time_to_send h m st"
    by (cases w) (simp_all add: time_to_send_def)
qed

lemma window_time_inj: "window_time w = window_time w' \<Longrightarrow> w = w'"
  by (cases w; cases w') simp_all

lemma window_time_not_midnight: "window_time w \<noteq> (0, 0)"
  by (cases w) simp_all

lemma sent_update_flags:
  "sent w' (update_flags (fst (window_time w)) st) = (w' = w \<or> sent w' st)"
  by (cases w; cases w') (simp_all add: update_flags_def)

lemma reset_flags_other: "(h, m) \<noteq> (0, 0) \<Longrightarrow> reset_flags h m st = st"
  by (auto simp: reset_flags_def)

lemma iteration_invalid:
  "get_current_time (clock inp) = None \<Longrightarrow> iteration fp inp st = (st, [wait_ready, Delay 5000])"
  by (simp add: iteration_def)

lemma iteration_fire:
  assumes "get_current_time (clock inp) = Some (window_time w)" and "\<not> sent w st"
  shows "iteration fp inp st =
           (update_flags (fst (window_time w)) st,
            [wait_ready, Publish ''garden/soil-moisture/s-1'' (percent_value fp (adc inp)) 0 1 0,
             Delay 1000])"
proof -
  obtain h m where hm: "window_time w = (h, m)" by (cases "window_time w")
  have r: "reset_flags h m st = st"
    using window_time_not_midnight [of w] hm by (simp add: reset_flags_other)
  have "time_to_send h m st"
    using assms(2) hm time_to_send_iff by metis
  with assms(1) hm r show ?thesis
    by (simp add: iteration_def)
qed

lemma iteration_idle:
  assumes "get_current_time (clock inp) = Some (h, m)"
    and "\<not> (\<exists>w. (h, m) = window_time w \<and> \<not> sent w (reset_flags h m st))"
  shows "iteration fp inp st = (reset_flags h m st, [wait_ready, Delay 1000])"
  using assms by (simp add: iteration_def time_to_send_iff Let_def)

text \<open>
  Every pass is of one of three kinds: the time is invalid; a window is due and armed, so
  the reading is published and the flag of that window set; or the time is valid and only
  the midnight reset, if any, happens.
\<close>

lemma iteration_cases:
  obtains (invalid) "get_current_time (clock inp) = None"
      "iteration fp inp st = (st, [wait_ready, Delay 5000])"
  | (fire) w where "get_current_time (clock inp) = Some (window_time w)" "\<not> sent w st"
      "iteration fp inp st =
           (update_flags (fst (window_time w)) st,
            [wait_ready, Publish ''garden/soil-moisture/s-1'' (percent_value fp (adc inp)) 0 1 0,
             Delay 1000])"
  | (idle) h m where "get_current_time (clock inp) = Some (h, m)"
      "\<not> (\<exists>w. (h, m) = window_time w \<and> \<not> sent w (reset_flags h m st))"
      "iteration fp inp st = (reset_flags h m st, [wait_ready, Delay 1000])"
proof (cases "get_current_time (clock inp)")
  case None
  then show ?thesis using invalid iteration_invalid by blast
next
  case (Some t)
  obtain h m where t: "t = (h, m)" by (cases t)
  show ?thesis
  proof (cases "\<exists>w. (h, m) = window_time w \<and> \<not> sent w (reset_flags h m st)")
    case True
    then obtain w where w: "(h, m) = window_time w" "\<not> sent w (reset_flags h m st)" by blast
    then have "reset_flags h m st = st"
      using window_time_not_midnight [of w] by (simp add: reset_flags_other)
    with w Some t show ?thesis using fire [of w] iteration_fire [of inp w st fp] by simp
  next
    case False
    then show ?thesis using idle [of h m] iteration_idle [of inp h m st fp] Some t by simp
  qed
qed

lemma fired_iff:
  "fired w st (iteration fp inp st) \<longleftrightarrow>
     get_current_time (clock inp) = Some (window_time w) \<and> \<not> sent w st"
proof (cases rule: iteration_cases [where inp = inp and fp = fp and st = st])
  case invalid
  then show ?thesis by (simp add: fired_def publishes_def)
next
  case (fire w')
  then show ?thesis
    using window_time_inj [of w w']
    by (auto simp: fired_def publishes_def sent_update_flags)
next
  case (idle h m)
  then show ?thesis
    by (auto simp: fired_def publishes_def) (metis reset_flags_other window_time_not_midnight)
qed


lemma iteration_midnight:
  "get_current_time (clock inp) = Some (0, 0) \<Longrightarrow>
     iteration fp inp st = (initial_flags, [wait_ready, Delay 1000])"
  by (simp add: iteration_def reset_flags_def time_to_send_def initial_flags_def)

lemma iteration_ignores_pub_result:
  "iteration fp (inp\<lparr>pub_result := r\<rparr>) st = iteration fp inp st"
  by (simp add: iteration_def Let_def split: option.split)

section \<open>Facts about runs\<close>

lemma samples_Nil: "samples [] = []"
  by (simp add: samples_def map_filter_simps)

lemma samples_Cons_invalid:
  "get_current_time (clock inp) = None \<Longrightarrow> samples (inp # inps) = samples inps"
  by (simp add: samples_def map_filter_simps)

lemma samples_Cons_valid:
  "get_current_time (clock inp) = Some t \<Longrightarrow> samples (inp # inps) = t # samples inps"
  by (simp add: samples_def map_filter_simps)

lemma sent_kept:
  assumes "sent w st" and "get_current_time (clock inp) \<noteq> Some (0, 0)"
  shows "sent w (fst (iteration fp inp st))"
proof (cases rule: iteration_cases [where inp = inp and fp = fp and st = st])
  case invalid
  with assms show ?thesis by simp
next
  case (fire w')
  with assms show ?thesis by (simp add: sent_update_flags)
next
  case (idle h m)
  with assms show ?thesis by (simp add: reset_flags_other)
qed

lemma fired_stays_fired:
  "sent w st \<Longrightarrow> (0, 0) \<notin> set (samples inps) \<Longrightarrow>
     fire_count w fp st inps = 0 \<and> sent w (fst (adc_mqtt_task fp st inps))"
proof (induction inps arbitrary: st)
  case Nil
  then show ?case by simp
next
  case (Cons inp inps)
  have nz: "get_current_time (clock inp) \<noteq> Some (0, 0)"
    using Cons.prems(2) by (auto simp: samples_Cons_valid)
  have rest: "(0, 0) \<notin> set (samples inps)"
    using Cons.prems(2)
    by (cases "get_current_time (clock inp)") (auto simp: samples_Cons_valid samples_Cons_invalid)
  have kept: "sent w (fst (iteration fp inp st))"
    using Cons.prems(1) nz by (rule sent_kept)
  have "\<not> fired w st (iteration fp inp st)"
    using Cons.prems(1) by (simp add: fired_def)
  with Cons.IH [OF kept rest] show ?case by (simp add: Let_def)
qed

lemma time_le_window_not_midnight: "time_le (window_time w) t \<Longrightarrow> t \<noteq> (0, 0)"
  by (cases w; cases t) auto

lemma fire_count_le_1:
  "sorted_wrt time_le (samples inps) \<Longrightarrow> fire_count w fp st inps \<le> 1"
proof (induction inps arbitrary: st)
  case Nil
  then show ?case by simp
next
  case (Cons inp inps)
  show ?case
  proof (cases "get_current_time (clock inp)")
    case None
    then have "\<not> fired w st (iteration fp inp st)" by (simp add: fired_iff)
    moreover have "sorted_wrt time_le (samples inps)"
      using Cons.prems None by (simp add: samples_Cons_invalid)
    ultimately show ?thesis using Cons.IH by simp
  next
    case (Some t)
    then have later: "\<forall>t' \<in> set (samples inps). time_le t t'"
      and sorted: "sorted_wrt time_le (samples inps)"
      using Cons.prems by (simp_all add: samples_Cons_valid)
    show ?thesis
    proof (cases "fired w st (iteration fp inp st)")
      case True
      then have t: "t = window_time w"
        using Some by (simp add: fired_iff)
      from True have now: "sent w (fst (iteration fp inp st))"
        by (simp add: fired_def)
      have "(0, 0) \<notin> set (samples inps)"
        using later t time_le_window_not_midnight by blast
      with now have "fire_count w fp (fst (iteration fp inp st)) inps = 0"
        using fired_stays_fired by blast
      with True show ?thesis by simp
    next
      case False
      with Cons.IH [OF sorted] show ?thesis by simp
    qed
  qed
qed

lemma publishes_iteration:
  "length (publishes (snd (iteration fp inp st))) =
     (if \<exists>w. fired w st (iteration fp inp st) then 1 else 0)"
proof (cases rule: iteration_cases [where inp = inp and fp = fp and st = st])
  case invalid
  then show ?thesis by (simp add: publishes_def fired_def)
next
  case (fire w')
  have "fired w' st (iteration fp inp st)"
    using fire(1,2) by (simp add: fired_iff)
  then have "\<exists>w. fired w st (iteration fp inp st)" by blast
  then show ?thesis using fire by (simp add: publishes_def)
next
  case (idle h m)
  then show ?thesis by (simp add: publishes_def fired_def)
qed

lemma fired_unique:
  "fired w st (iteration fp inp st) \<Longrightarrow> fired w' st (iteration fp inp st) \<Longrightarrow> w = w'"
  by (simp add: fired_iff window_time_inj)

lemma publishes_append: "publishes (xs @ ys) = publishes xs @ publishes ys"
  by (simp add: publishes_def)

lemma publishes_count:
  "length (publishes (snd (adc_mqtt_task fp st inps))) =
     fire_count Morning fp st inps + fire_count Afternoon fp st inps + fire_count Evening fp st inps"
proof (induction inps arbitrary: st)
  case Nil
  then show ?case by (simp add: publishes_def)
next
  case (Cons inp inps)
  have one: "length (publishes (snd (iteration fp inp st))) =
      (if fired Morning st (iteration fp inp st) then 1 else 0) +
      (if fired Afternoon st (iteration fp inp st) then 1 else 0) +
      (if fired Evening st (iteration fp inp st) then 1 else 0)"
  proof (cases "\<exists>w. fired w st (iteration fp inp st)")
    case True
    then obtain w where w: "fired w st (iteration fp inp st)" by blast
    then have "\<And>w'. fired w' st (iteration fp inp st) \<longleftrightarrow> w' = w"
      using fired_unique by blast
    then show ?thesis using True by (cases w) (simp_all add: publishes_iteration)
  next
    case False
    then show ?thesis by (simp add: publishes_iteration)
  qed
  show ?case
    using Cons.IH [of "fst (iteration fp inp st)"] one
    by (simp add: Let_def publishes_append)
qed

lemma get_current_time_poll_at: "get_current_time (clock (poll_at d h m)) = Some (h, m)"
  by (simp add: poll_at_def get_current_time_def)

lemma fire_count_append:
  "fire_count w fp st (xs @ ys) =
     fire_count w fp st xs + fire_count w fp (fst (adc_mqtt_task fp st xs)) ys"
  by (induction xs arbitrary: st) (simp_all add: Let_def)

section \<open>At most one fire per window and day\<close>

text \<open>
  C1. The windows of the program are the three of its condition (05:00, 10:00 and 14:00,
  pairwise different). Whatever the flags at the start, if the valid time samples of a
  run are in non-decreasing order of (hour, minute), as the polls of one calendar day
  are, then each window fires at most once in the run, the run attempts at most three
  publishes (one per window), and after a pass in which a window fired no later pass of
  the run fires that window again.
\<close>

theorem window_fires_at_most_once_per_day:
  "sorted_wrt time_le (samples inps) \<Longrightarrow>
     fire_count w fp st inps \<le> 1 \<and>
     length (publishes (snd (adc_mqtt_task fp st inps))) \<le> 3 \<and>
     (\<forall>xs inp ys. inps = xs @ inp # ys \<longrightarrow>
        fired w (fst (adc_mqtt_task fp st xs)) (iteration fp inp (fst (adc_mqtt_task fp st xs))) \<longrightarrow>
        fire_count w fp (fst (iteration fp inp (fst (adc_mqtt_task fp st xs)))) ys = 0)"
proof (intro conjI allI impI)
  assume sorted: "sorted_wrt time_le (samples inps)"
  then show once: "fire_count w fp st inps \<le> 1"
    by (rule fire_count_le_1)
  show "length (publishes (snd (adc_mqtt_task fp st inps))) \<le> 3"
    using fire_count_le_1 [OF sorted, of Morning fp st]
      fire_count_le_1 [OF sorted, of Afternoon fp st]
      fire_count_le_1 [OF sorted, of Evening fp st]
    by (simp add: publishes_count)
  fix xs inp ys
  assume split: "inps = xs @ inp # ys"
    and "fired w (fst (adc_mqtt_task fp st xs)) (iteration fp inp (fst (adc_mqtt_task fp st xs)))"
  then show "fire_count w fp (fst (iteration fp inp (fst (adc_mqtt_task fp st xs)))) ys = 0"
    using once by (simp add: fire_count_append)
qed

text \<open>
  A day with two polls at 05:00 and one at 10:00: the morning window fires in the first
  pass and not again.
\<close>

theorem window_fires_at_most_once_per_day_witness:
  "sorted_wrt time_le (samples [poll_at 200 5 0, poll_at 200 5 0, poll_at 200 10 0]) \<and>
   fired Morning initial_flags (iteration ideal_fp (poll_at 200 5 0) initial_flags) \<and>
   fire_count Morning ideal_fp initial_flags
     [poll_at 200 5 0, poll_at 200 5 0, poll_at 200 10 0] \<le> 1 \<and>
   length (publishes (snd (adc_mqtt_task ideal_fp initial_flags
     [poll_at 200 5 0, poll_at 200 5 0, poll_at 200 10 0]))) \<le> 3 \<and>
   fire_count Morning ideal_fp (fst (iteration ideal_fp (poll_at 200 5 0) initial_flags))
     [poll_at 200 5 0, poll_at 200 10 0] = 0"
proof -
  let ?day = "[poll_at 200 5 0, poll_at 200 5 0, poll_at 200 10 0]"
  have s: "sorted_wrt time_le (samples ?day)"
    by (simp add: samples_def map_filter_simps get_current_time_poll_at)
  have f: "fired Morning initial_flags (iteration ideal_fp (poll_at 200 5 0) initial_flags)"
    by (simp add: fired_iff get_current_time_poll_at initial_flags_def)
  note t = window_fires_at_most_once_per_day [OF s, of Morning ideal_fp initial_flags]
  from t have later: "\<forall>xs inp ys. ?day = xs @ inp # ys \<longrightarrow>
        fired Morning (fst (adc_mqtt_task ideal_fp initial_flags xs))
          (iteration ideal_fp inp (fst (adc_mqtt_task ideal_fp initial_flags xs))) \<longrightarrow>
        fire_count Morning ideal_fp
          (fst (iteration ideal_fp inp (fst (adc_mqtt_task ideal_fp initial_flags xs)))) ys = 0"
    by blast
  have "fire_count Morning ideal_fp (fst (iteration ideal_fp (poll_at 200 5 0) initial_flags))
     [poll_at 200 5 0, poll_at 200 10 0] = 0"
    using later [rule_format, of "[]" "poll_at 200 5 0" "[poll_at 200 5 0, poll_at 200 10 0]"] f
    by simp
  with s f t show ?thesis by blast
qed

section \<open>The percentage\<close>


lemma percent_value_ideal:
  "percent_value ideal_fp v = max 0 (min 100 (100 - (of_int v - 2300) * 100 / 1795))"
  by (simp add: percent_value_def ideal_fp_def Let_def max_def min_def)







section \<open>Invalid time\<close>

text \<open>
  C7. In a pass in which \<^verbatim>\<open>get_current_time\<close> reports an invalid time, the task waits for
  readiness, sleeps the fixed 5000 ms and starts the next pass: the flags are what they
  were, nothing is published and no window fires.
\<close>

theorem invalid_time_no_effect:
  "get_current_time (clock inp) = None \<Longrightarrow>
     iteration fp inp st = (st, [wait_ready, Delay 5000]) \<and>
     publishes (snd (iteration fp inp st)) = [] \<and>
     (\<forall>w. \<not> fired w st (iteration fp inp st))"
  by (simp add: iteration_invalid publishes_def fired_def)

text \<open>A poll at 05:00 of an unsynchronised clock (year 1970) leaves the morning window armed.\<close>

theorem invalid_time_no_effect_witness:
  "get_current_time (clock (unsynced_poll 5 0)) = None \<and>
   iteration ideal_fp (unsynced_poll 5 0) initial_flags = (initial_flags, [wait_ready, Delay 5000]) \<and>
   publishes (snd (iteration ideal_fp (unsynced_poll 5 0) initial_flags)) = [] \<and>
   \<not> fired Morning initial_flags (iteration ideal_fp (unsynced_poll 5 0) initial_flags)"
proof -
  have h: "get_current_time (clock (unsynced_poll 5 0)) = None"
    by (simp add: unsynced_poll_def get_current_time_def)
  from invalid_time_no_effect [OF h, of ideal_fp initial_flags] h show ?thesis by blast
qed

section \<open>The midnight reset\<close>

text \<open>
  C2 says that the flags are cleared on the first valid pass of a new calendar day. The
  program keeps no record of the day: it clears the flags only in a pass that reads 00:00.
  With every window fired, a valid poll at 23:59 of day 200 followed by a valid poll at
  00:01 of day 201 leaves every window fired.
\<close>

theorem rollover_without_midnight_poll_counterexample:
  "calendar_day (clock (poll_at 200 23 59)) \<noteq> calendar_day (clock (poll_at 201 0 1)) \<and>
   get_current_time (clock (poll_at 200 23 59)) = Some (23, 59) \<and>
   get_current_time (clock (poll_at 201 0 1)) = Some (0, 1) \<and>
   fst (adc_mqtt_task ideal_fp all_sent [poll_at 200 23 59, poll_at 201 0 1]) = all_sent \<and>
   fst (adc_mqtt_task ideal_fp all_sent [poll_at 200 23 59, poll_at 201 0 1]) \<noteq> initial_flags"
proof -
  have a: "iteration ideal_fp (poll_at 200 23 59) all_sent = (all_sent, [wait_ready, Delay 1000])"
    by (simp add: iteration_def get_current_time_poll_at reset_flags_def time_to_send_def)
  have b: "iteration ideal_fp (poll_at 201 0 1) all_sent = (all_sent, [wait_ready, Delay 1000])"
    by (simp add: iteration_def get_current_time_poll_at reset_flags_def time_to_send_def)
  have c: "calendar_day (clock (poll_at 200 23 59)) \<noteq> calendar_day (clock (poll_at 201 0 1))"
    by (simp add: calendar_day_def poll_at_def)
  have d: "all_sent \<noteq> initial_flags"
    by (simp add: all_sent_def initial_flags_def)
  from a b c d show ?thesis
    by (simp add: get_current_time_poll_at)
qed

text \<open>
  C2, as the program has it. In a pass with a valid time, all flags are cleared if the
  time read is 00:00, whatever the calendar day; at any other time no flag that is set is
  cleared.
\<close>

theorem flags_reset_only_at_midnight:
  "get_current_time (clock inp) = Some (h, m) \<Longrightarrow>
     ((h, m) = (0, 0) \<longrightarrow> fst (iteration fp inp st) = initial_flags) \<and>
     ((h, m) \<noteq> (0, 0) \<longrightarrow> (\<forall>w. sent w st \<longrightarrow> sent w (fst (iteration fp inp st))))"
  using iteration_midnight [of inp fp st] sent_kept [of _ st inp fp]
  by auto

text \<open>From the state with every window fired: a poll at 00:00 and a poll at 00:01.\<close>

theorem flags_reset_only_at_midnight_witness:
  "get_current_time (clock (poll_at 201 0 0)) = Some (0, 0) \<and>
   fst (iteration ideal_fp (poll_at 201 0 0) all_sent) = initial_flags \<and>
   get_current_time (clock (poll_at 201 0 1)) = Some (0, 1) \<and>
   sent Morning all_sent \<and>
   sent Morning (fst (iteration ideal_fp (poll_at 201 0 1) all_sent))"
proof -
  have a: "get_current_time (clock (poll_at 201 0 0)) = Some (0, 0)"
    and b: "get_current_time (clock (poll_at 201 0 1)) = Some (0, 1)"
    by (simp_all add: get_current_time_poll_at)
  have c: "sent Morning all_sent" by (simp add: all_sent_def)
  from flags_reset_only_at_midnight [OF a, of ideal_fp all_sent]
  have d: "fst (iteration ideal_fp (poll_at 201 0 0) all_sent) = initial_flags"
    by simp
  from flags_reset_only_at_midnight [OF b, of ideal_fp all_sent]
  have "\<forall>w. sent w all_sent \<longrightarrow> sent w (fst (iteration ideal_fp (poll_at 201 0 1) all_sent))"
    by simp
  with c have e: "sent Morning (fst (iteration ideal_fp (poll_at 201 0 1) all_sent))"
    by blast
  from a b c d e show ?thesis by blast
qed

section \<open>One fire per pass\<close>

text \<open>
  C4. A pass attempts at most one publish and fires at most one window. No two windows
  of the program share a time of day, so two windows never match the same minute. If the
  time read is valid and equal to the time of a window that is armed, the pass attempts
  exactly one publish, that window fires, and no other window does.
\<close>

theorem one_fire_per_tick:
  "length (publishes (snd (iteration fp inp st))) \<le> 1 \<and>
   (\<forall>w w'. fired w st (iteration fp inp st) \<and> fired w' st (iteration fp inp st) \<longrightarrow> w = w') \<and>
   (\<forall>w w'. window_time w = window_time w' \<longrightarrow> w = w') \<and>
   (get_current_time (clock inp) = Some (window_time w) \<and> \<not> sent w st \<longrightarrow>
      length (publishes (snd (iteration fp inp st))) = 1 \<and>
      fired w st (iteration fp inp st) \<and>
      (\<forall>w'. w' \<noteq> w \<longrightarrow> \<not> fired w' st (iteration fp inp st)))"
proof (intro conjI allI impI)
  show "length (publishes (snd (iteration fp inp st))) \<le> 1"
    by (simp add: publishes_iteration)
next
  fix w w'
  assume "fired w st (iteration fp inp st) \<and> fired w' st (iteration fp inp st)"
  then show "w = w'" using fired_unique by blast
next
  fix w w' :: window
  assume "window_time w = window_time w'"
  then show "w = w'" by (rule window_time_inj)
next
  assume h: "get_current_time (clock inp) = Some (window_time w) \<and> \<not> sent w st"
  then show f: "fired w st (iteration fp inp st)" by (simp add: fired_iff)
  then have "\<exists>w. fired w st (iteration fp inp st)" by blast
  then show "length (publishes (snd (iteration fp inp st))) = 1"
    by (simp add: publishes_iteration)
  fix w'
  assume "w' \<noteq> w"
  then show "\<not> fired w' st (iteration fp inp st)"
    using f fired_unique by blast
qed

text \<open>A poll at 10:00 with every window armed fires the afternoon window only.\<close>

theorem one_fire_per_tick_witness:
  "get_current_time (clock (poll_at 200 10 0)) = Some (window_time Afternoon) \<and>
   \<not> sent Afternoon initial_flags \<and>
   length (publishes (snd (iteration ideal_fp (poll_at 200 10 0) initial_flags))) = 1 \<and>
   fired Afternoon initial_flags (iteration ideal_fp (poll_at 200 10 0) initial_flags) \<and>
   \<not> fired Morning initial_flags (iteration ideal_fp (poll_at 200 10 0) initial_flags) \<and>
   \<not> fired Evening initial_flags (iteration ideal_fp (poll_at 200 10 0) initial_flags)"
proof -
  have a: "get_current_time (clock (poll_at 200 10 0)) = Some (window_time Afternoon)"
    by (simp add: get_current_time_poll_at)
  have b: "\<not> sent Afternoon initial_flags"
    by (simp add: initial_flags_def)
  from one_fire_per_tick [of ideal_fp "poll_at 200 10 0" initial_flags Afternoon] a b
  show ?thesis by simp
qed

section \<open>The topic\<close>

text \<open>
  C5 says that each window publishes to a topic of its own. The program has one topic for
  all of them: the morning window and the afternoon window, two different windows, both
  publish to \<^verbatim>\<open>garden/soil-moisture/s-1\<close>.
\<close>

theorem per_window_topic_counterexample:
  "fired Morning initial_flags (iteration ideal_fp (poll_at 200 5 0) initial_flags) \<and>
   fired Afternoon initial_flags (iteration ideal_fp (poll_at 200 10 0) initial_flags) \<and>
   map topic_of (publishes (snd (iteration ideal_fp (poll_at 200 5 0) initial_flags))) =
     [''garden/soil-moisture/s-1''] \<and>
   map topic_of (publishes (snd (iteration ideal_fp (poll_at 200 10 0) initial_flags))) =
     [''garden/soil-moisture/s-1'']"
proof -
  have a: "fired Morning initial_flags (iteration ideal_fp (poll_at 200 5 0) initial_flags)"
    and b: "fired Afternoon initial_flags (iteration ideal_fp (poll_at 200 10 0) initial_flags)"
    by (simp_all add: fired_iff get_current_time_poll_at initial_flags_def)
  have "get_current_time (clock (poll_at 200 5 0)) = Some (window_time Morning)"
    and "\<not> sent Morning initial_flags"
    by (simp_all add: get_current_time_poll_at initial_flags_def)
  from iteration_fire [OF this, of ideal_fp] have c: "map topic_of (publishes (snd (iteration ideal_fp (poll_at 200 5 0) initial_flags))) =
     [''garden/soil-moisture/s-1'']"
    by (simp add: publishes_def)
  have "get_current_time (clock (poll_at 200 10 0)) = Some (window_time Afternoon)"
    and "\<not> sent Afternoon initial_flags"
    by (simp_all add: get_current_time_poll_at initial_flags_def)
  from iteration_fire [OF this, of ideal_fp] have d: "map topic_of (publishes (snd (iteration ideal_fp (poll_at 200 10 0) initial_flags))) =
     [''garden/soil-moisture/s-1'']"
    by (simp add: publishes_def)
  from a b c d show ?thesis by blast
qed

text \<open>
  C5, as the program has it. In every pass in which a window fires, whichever window it
  is, the publisher is invoked exactly once, with the topic
  \<^verbatim>\<open>garden/soil-moisture/s-1\<close>, the percentage of the reading as payload, len 0, qos 1 and
  retain 0.
\<close>

theorem every_fire_publishes_to_fixed_topic:
  "fired w st (iteration fp inp st) \<Longrightarrow>
     publishes (snd (iteration fp inp st)) =
       [Publish ''garden/soil-moisture/s-1'' (percent_value fp (adc inp)) 0 1 0]"
  by (simp add: fired_iff iteration_fire publishes_def)

text \<open>The evening window at 14:00, with the reading 4095.\<close>

theorem every_fire_publishes_to_fixed_topic_witness:
  "fired Evening initial_flags (iteration ideal_fp (poll_at 200 14 0) initial_flags) \<and>
   publishes (snd (iteration ideal_fp (poll_at 200 14 0) initial_flags)) =
     [Publish ''garden/soil-moisture/s-1'' 0 0 1 0]"
proof -
  have f: "fired Evening initial_flags (iteration ideal_fp (poll_at 200 14 0) initial_flags)"
    by (simp add: fired_iff get_current_time_poll_at initial_flags_def)
  have "percent_value ideal_fp (adc (poll_at 200 14 0)) = 0"
    by (simp add: percent_value_ideal poll_at_def)
  with every_fire_publishes_to_fixed_topic [OF f] f show ?thesis by simp
qed

section \<open>Publish failure\<close>

lemma no_publish_when_sent:
  assumes "get_current_time (clock inp) = Some (window_time w)" and "sent w st"
  shows "publishes (snd (iteration fp inp st)) = []"
proof (cases rule: iteration_cases [where inp = inp and fp = fp and st = st])
  case invalid
  then show ?thesis by (simp add: publishes_def)
next
  case (fire w')
  with assms(1) have "w' = w" by (simp add: window_time_inj)
  with fire(2) assms(2) show ?thesis by simp
next
  case (idle h m)
  then show ?thesis by (simp add: publishes_def)
qed

text \<open>
  C6. What \<^verbatim>\<open>esp_mqtt_client_publish\<close> returns has no influence on a pass. When the time
  read is that of an armed window, the window's flag is set after the pass whatever the
  publisher returned. In every continuation of the run in which no valid poll reads 00:00
  the window does not fire again, its flag is still set at the end, and a further pass
  that reads the window's time attempts no publish.
\<close>

theorem publish_failure_keeps_fired:
  "iteration fp (inp\<lparr>pub_result := r\<rparr>) st = iteration fp inp st \<and>
   (get_current_time (clock inp) = Some (window_time w) \<and> \<not> sent w st \<longrightarrow>
      sent w (fst (iteration fp (inp\<lparr>pub_result := r\<rparr>) st)) \<and>
      ((0, 0) \<notin> set (samples inps) \<longrightarrow>
         fire_count w fp (fst (iteration fp (inp\<lparr>pub_result := r\<rparr>) st)) inps = 0 \<and>
         sent w (fst (adc_mqtt_task fp (fst (iteration fp (inp\<lparr>pub_result := r\<rparr>) st)) inps)) \<and>
         (get_current_time (clock inp') = Some (window_time w) \<longrightarrow>
            publishes (snd (iteration fp inp'
              (fst (adc_mqtt_task fp (fst (iteration fp (inp\<lparr>pub_result := r\<rparr>) st)) inps)))) = [])))"
proof (intro conjI impI)
  show same: "iteration fp (inp\<lparr>pub_result := r\<rparr>) st = iteration fp inp st"
    by (rule iteration_ignores_pub_result)
  assume "get_current_time (clock inp) = Some (window_time w) \<and> \<not> sent w st"
  then have "fired w st (iteration fp inp st)" by (simp add: fired_iff)
  then show now: "sent w (fst (iteration fp (inp\<lparr>pub_result := r\<rparr>) st))"
    by (simp add: same fired_def)
  assume "(0, 0) \<notin> set (samples inps)"
  with now show "fire_count w fp (fst (iteration fp (inp\<lparr>pub_result := r\<rparr>) st)) inps = 0"
    and later: "sent w (fst (adc_mqtt_task fp (fst (iteration fp (inp\<lparr>pub_result := r\<rparr>) st)) inps))"
    using fired_stays_fired by blast+
  assume "get_current_time (clock inp') = Some (window_time w)"
  then show "publishes (snd (iteration fp inp'
      (fst (adc_mqtt_task fp (fst (iteration fp (inp\<lparr>pub_result := r\<rparr>) st)) inps)))) = []"
    using later by (rule no_publish_when_sent)
qed

text \<open>
  The publish at 05:00 fails (result -1); polls at 05:00 and 05:01 follow, and then
  another at 05:00.
\<close>

theorem publish_failure_keeps_fired_witness:
  "get_current_time (clock (poll_at 200 5 0)) = Some (window_time Morning) \<and>
   \<not> sent Morning initial_flags \<and>
   (0, 0) \<notin> set (samples [poll_at 200 5 0, poll_at 200 5 1]) \<and>
   sent Morning (fst (iteration ideal_fp ((poll_at 200 5 0)\<lparr>pub_result := - 1\<rparr>) initial_flags)) \<and>
   fire_count Morning ideal_fp
     (fst (iteration ideal_fp ((poll_at 200 5 0)\<lparr>pub_result := - 1\<rparr>) initial_flags))
     [poll_at 200 5 0, poll_at 200 5 1] = 0 \<and>
   publishes (snd (iteration ideal_fp (poll_at 200 5 0)
     (fst (adc_mqtt_task ideal_fp
       (fst (iteration ideal_fp ((poll_at 200 5 0)\<lparr>pub_result := - 1\<rparr>) initial_flags))
       [poll_at 200 5 0, poll_at 200 5 1])))) = []"
proof -
  have a: "get_current_time (clock (poll_at 200 5 0)) = Some (window_time Morning)"
    by (simp add: get_current_time_poll_at)
  have b: "\<not> sent Morning initial_flags"
    by (simp add: initial_flags_def)
  have c: "(0, 0) \<notin> set (samples [poll_at 200 5 0, poll_at 200 5 1])"
    by (simp add: samples_def map_filter_simps get_current_time_poll_at)
  from publish_failure_keeps_fired
    [where fp = ideal_fp and inp = "poll_at 200 5 0" and r = "- 1" and st = initial_flags
      and w = Morning and inps = "[poll_at 200 5 0, poll_at 200 5 1]"
      and inp' = "poll_at 200 5 0"]
    a b c
  show ?thesis by blast
qed

section \<open>Frame of a fire\<close>

text \<open>
  C9. In a pass whose valid time is that of a window that is armed, that window fires:
  the flags after the pass are those before it with the flag-setting step of the window's
  hour applied, the flag of that window is set and the flag of every other window is what
  it was.
\<close>

theorem fire_marks_only_its_window:
  "get_current_time (clock inp) = Some (window_time w) \<Longrightarrow> \<not> sent w st \<Longrightarrow>
     fired w st (iteration fp inp st) \<and>
     fst (iteration fp inp st) = update_flags (fst (window_time w)) st \<and>
     sent w (fst (iteration fp inp st)) \<and>
     (\<forall>w'. w' \<noteq> w \<longrightarrow> sent w' (fst (iteration fp inp st)) = sent w' st)"
proof -
  assume time: "get_current_time (clock inp) = Some (window_time w)"
    and armed: "\<not> sent w st"
  then have f: "fired w st (iteration fp inp st)"
    by (simp add: fired_iff)
  have "fst (iteration fp inp st) = update_flags (fst (window_time w)) st"
    by (simp add: iteration_fire [OF time armed])
  with f show ?thesis
    by (simp add: sent_update_flags)
qed

text \<open>The afternoon window at 10:00, the morning window having fired before.\<close>

theorem fire_marks_only_its_window_witness:
  "get_current_time (clock (poll_at 200 10 0)) = Some (window_time Afternoon) \<and>
   \<not> sent Afternoon (initial_flags\<lparr>sent_morning := True\<rparr>) \<and>
   fired Afternoon (initial_flags\<lparr>sent_morning := True\<rparr>)
     (iteration ideal_fp (poll_at 200 10 0) (initial_flags\<lparr>sent_morning := True\<rparr>)) \<and>
   fst (iteration ideal_fp (poll_at 200 10 0) (initial_flags\<lparr>sent_morning := True\<rparr>)) =
     \<lparr>sent_morning = True, sent_afternoon = True, sent_evening = False\<rparr>"
proof -
  let ?st = "initial_flags\<lparr>sent_morning := True\<rparr>"
  have a: "get_current_time (clock (poll_at 200 10 0)) = Some (window_time Afternoon)"
    by (simp add: get_current_time_poll_at)
  have b: "\<not> sent Afternoon ?st"
    by (simp add: initial_flags_def)
  from fire_marks_only_its_window [OF a b, of ideal_fp] a b show ?thesis
    by (simp add: update_flags_def initial_flags_def)
qed

section \<open>Waiting for readiness\<close>

lemma wait_ready_returns:
  "xEventGroupWaitBits g {WIFI_CONNECTED_BIT, MQTT_CONNECTED_BIT} False True =
     (if WIFI_CONNECTED_BIT \<in> g \<and> MQTT_CONNECTED_BIT \<in> g then Some (g, g) else None)"
  by (simp add: xEventGroupWaitBits_def)

lemma perform_wait_ready:
  "perform wait_ready g =
     (if WIFI_CONNECTED_BIT \<in> g \<and> MQTT_CONNECTED_BIT \<in> g then Some g else None)"
  by (simp add: xEventGroupWaitBits_def)

lemma perform_all_append:
  "perform_all (es @ es') g =
     (case perform_all es g of None \<Rightarrow> None | Some g' \<Rightarrow> perform_all es' g')"
  by (induction es arbitrary: g) (simp_all split: option.split)

lemma iteration_events:
  "snd (iteration fp inp st) = [wait_ready, Delay 5000] \<or>
   snd (iteration fp inp st) = [wait_ready, Delay 1000] \<or>
   snd (iteration fp inp st) =
     [wait_ready, Publish ''garden/soil-moisture/s-1'' (percent_value fp (adc inp)) 0 1 0,
      Delay 1000]"
  by (cases rule: iteration_cases [where inp = inp and fp = fp and st = st]) simp_all

lemma perform_iteration:
  "perform_all (snd (iteration fp inp st)) g =
     (if WIFI_CONNECTED_BIT \<in> g \<and> MQTT_CONNECTED_BIT \<in> g then Some g else None)"
  using iteration_events [of fp inp st]
  by (auto simp: xEventGroupWaitBits_def)

lemma waits_iteration:
  "filter is_wait (snd (iteration fp inp st)) = [wait_ready]"
  using iteration_events [of fp inp st] by auto

lemma perform_run_ready:
  "WIFI_CONNECTED_BIT \<in> g \<Longrightarrow> MQTT_CONNECTED_BIT \<in> g \<Longrightarrow>
     perform_all (snd (adc_mqtt_task fp st inps)) g = Some g"
  by (induction inps arbitrary: st) (simp_all add: Let_def perform_all_append perform_iteration)

lemma perform_run_blocked:
  "\<not> (WIFI_CONNECTED_BIT \<in> g \<and> MQTT_CONNECTED_BIT \<in> g) \<Longrightarrow> inps \<noteq> [] \<Longrightarrow>
     perform_all (snd (adc_mqtt_task fp st inps)) g = None"
  by (cases inps) (auto simp: Let_def perform_all_append perform_iteration)

lemma waits_run:
  "filter is_wait (snd (adc_mqtt_task fp st inps)) = replicate (length inps) wait_ready"
  by (induction inps arbitrary: st) (simp_all add: Let_def waits_iteration)

text \<open>
  C10. Every pass of a run waits once, for both bits, with clear-on-exit off and
  wait-for-all on. Such a wait returns exactly when both bits are set, and then leaves the
  event group as it was. So, as long as nothing else changes the group, a run started with
  both bits set goes through all its waits and ends with the group unchanged, both bits
  still set; a run started with a bit missing stays blocked.
\<close>

theorem wait_keeps_readiness:
  "filter is_wait (snd (adc_mqtt_task fp st inps)) = replicate (length inps) wait_ready \<and>
   xEventGroupWaitBits g {WIFI_CONNECTED_BIT, MQTT_CONNECTED_BIT} False True =
     (if WIFI_CONNECTED_BIT \<in> g \<and> MQTT_CONNECTED_BIT \<in> g then Some (g, g) else None) \<and>
   (WIFI_CONNECTED_BIT \<in> g \<and> MQTT_CONNECTED_BIT \<in> g \<longrightarrow>
      perform_all (snd (adc_mqtt_task fp st inps)) g = Some g) \<and>
   (\<not> (WIFI_CONNECTED_BIT \<in> g \<and> MQTT_CONNECTED_BIT \<in> g) \<and> inps \<noteq> [] \<longrightarrow>
      perform_all (snd (adc_mqtt_task fp st inps)) g = None)"
  using waits_run [of fp st inps] wait_ready_returns [of g]
    perform_run_ready [of g fp st inps] perform_run_blocked [of g inps fp st]
  by blast

text \<open>
  Two passes with both bits set, one of them with an invalid time; one pass with the
  session bit missing.
\<close>

theorem wait_keeps_readiness_witness:
  "WIFI_CONNECTED_BIT \<in> {WIFI_CONNECTED_BIT, MQTT_CONNECTED_BIT} \<and>
   MQTT_CONNECTED_BIT \<in> {WIFI_CONNECTED_BIT, MQTT_CONNECTED_BIT} \<and>
   perform_all (snd (adc_mqtt_task ideal_fp initial_flags [poll_at 200 5 0, unsynced_poll 5 0]))
     {WIFI_CONNECTED_BIT, MQTT_CONNECTED_BIT} = Some {WIFI_CONNECTED_BIT, MQTT_CONNECTED_BIT} \<and>
   [poll_at 200 5 0] \<noteq> [] \<and>
   perform_all (snd (adc_mqtt_task ideal_fp initial_flags [poll_at 200 5 0]))
     {WIFI_CONNECTED_BIT} = None"
proof -
  from wait_keeps_readiness
    [of ideal_fp initial_flags "[poll_at 200 5 0, unsynced_poll 5 0]"
      "{WIFI_CONNECTED_BIT, MQTT_CONNECTED_BIT}"]
  have a: "perform_all
      (snd (adc_mqtt_task ideal_fp initial_flags [poll_at 200 5 0, unsynced_poll 5 0]))
      {WIFI_CONNECTED_BIT, MQTT_CONNECTED_BIT} = Some {WIFI_CONNECTED_BIT, MQTT_CONNECTED_BIT}"
    by simp
  from wait_keeps_readiness
    [of ideal_fp initial_flags "[poll_at 200 5 0]" "{WIFI_CONNECTED_BIT}"]
  have b: "perform_all (snd (adc_mqtt_task ideal_fp initial_flags [poll_at 200 5 0]))
     {WIFI_CONNECTED_BIT} = None"
    by simp
  from a b show ?thesis by simp
qed

section \<open>The clock\<close>

text \<open>
  C8. \<^verbatim>\<open>get_current_time\<close> reports the time as invalid exactly when the calendar year
  (\<^verbatim>\<open>tm_year\<close> + 1900) is earlier than 2023; when it reports a valid time, the hour and
  minute are those of the broken-down time, hence within 0..23 and 0..59 for every
  broken-down time the C library can produce.
\<close>

theorem get_current_time_valid_iff_year:
  "(get_current_time timeinfo = None \<longleftrightarrow> tm_year timeinfo + 1900 < 2023) \<and>
   (tm_wf timeinfo \<longrightarrow> get_current_time timeinfo = Some (h, m) \<longrightarrow>
      0 \<le> h \<and> h \<le> 23 \<and> 0 \<le> m \<and> m \<le> 59)"
  by (auto simp: get_current_time_def tm_wf_def split: if_splits)

theorem get_current_time_valid_iff_year_witness:
  "tm_wf \<lparr>tm_year = 124, tm_yday = 200, tm_hour = 14, tm_min = 0\<rparr> \<and>
   get_current_time \<lparr>tm_year = 124, tm_yday = 200, tm_hour = 14, tm_min = 0\<rparr> = Some (14, 0) \<and>
   (0::int) \<le> 14 \<and> (14::int) \<le> 23 \<and> (0::int) \<le> 0 \<and> (0::int) \<le> 59"
  using get_current_time_valid_iff_year
    [of "\<lparr>tm_year = 124, tm_yday = 200, tm_hour = 14, tm_min = 0\<rparr>" 14 0]
  by (simp add: get_current_time_def tm_wf_def)

end
